theory Spec2Isabelle
  imports Complex_Main
begin

section \<open>A two-layer feed-forward network: the data model\<close>

text \<open>
  The package keeps every number in a Go slice, and slices are references: two slice
  headers may name the same backing array. The model therefore keeps the backing arrays
  of \<^verbatim>\<open>[]float64\<close> in an explicit heap and lets a slice header be the address of its
  array. Every slice of the package is a whole array (made by \<^verbatim>\<open>make\<close> or by the
  decoder), so a header needs no offset; a nil slice and an empty one behave alike
  under \<^verbatim>\<open>len\<close>, indexing and \<^verbatim>\<open>range\<close>, and both are an address of an empty array
  (an address beyond the heap reads as empty too). The outer arrays of
  \<^verbatim>\<open>[][]float64\<close> are never written after construction, so a matrix is the list of
  the addresses of its rows.

  A \<^verbatim>\<open>float64\<close> is modelled as a real number: the theorems speak of exact arithmetic,
  not of rounding, overflow or NaN. A run-time panic is a value of type \<open>panic\<close>; it
  ends the call, and the model keeps no heap for it.
\<close>

datatype panic = IndexOutOfRange | NilDereference

type_synonym addr = nat
type_synonym heap = "real list list"

definition arr :: "heap \<Rightarrow> addr \<Rightarrow> real list" where
  "arr h a = (if a < length h then h ! a else [])"

definition len :: "heap \<Rightarrow> addr \<Rightarrow> nat" where
  "len h a = length (arr h a)"

text \<open>\<^verbatim>\<open>a[j]\<close> as an operand and as the target of an assignment.\<close>

definition get :: "heap \<Rightarrow> addr \<Rightarrow> nat \<Rightarrow> panic + real" where
  "get h a j = (if j < len h a then Inr (arr h a ! j) else Inl IndexOutOfRange)"

definition put :: "heap \<Rightarrow> addr \<Rightarrow> nat \<Rightarrow> real \<Rightarrow> panic + heap" where
  "put h a j v = (if j < len h a then Inr (h[a := (arr h a)[j := v]]) else Inl IndexOutOfRange)"

text \<open>\<^verbatim>\<open>ws[i]\<close> on a matrix: the header of row \<open>i\<close>.\<close>

definition row :: "addr list \<Rightarrow> nat \<Rightarrow> panic + addr" where
  "row ws i = (if i < length ws then Inr (ws ! i) else Inl IndexOutOfRange)"

text \<open>\<^verbatim>\<open>make([]float64, n)\<close>: a fresh zeroed array at the next free address.\<close>

definition make_slice :: "nat \<Rightarrow> heap \<Rightarrow> addr \<times> heap" where
  "make_slice n h = (length h, h @ [replicate n 0])"

text \<open>The builtin \<^verbatim>\<open>copy(dst, src)\<close> copies \<open>min (len dst) (len src)\<close> elements.\<close>

definition copy_slice :: "addr \<Rightarrow> addr \<Rightarrow> heap \<Rightarrow> heap" where
  "copy_slice dst src h =
     (let n = min (len h dst) (len h src)
      in h[dst := take n (arr h src) @ drop n (arr h dst)])"

text \<open>
  \<^verbatim>\<open>type Layer struct { Weight [][]float64; Bias []float64; value []float64 }\<close> and
  \<^verbatim>\<open>type Network struct { Hidden *Layer; Output *Layer }\<close>. The two layer pointers of
  a network that \<^verbatim>\<open>NewNetwork\<close> or \<^verbatim>\<open>LoadNetwork\<close> returns are never nil and never
  reassigned, so a network holds its layers; a pointer that may still be nil appears
  only in what the decoder leaves behind (\<open>Decoded\<close> below). The field \<open>value\<close> is
  written \<open>value'\<close>.
\<close>

record Layer =
  Weight :: "addr list"
  Bias :: addr
  value' :: addr

record Network =
  Hidden :: Layer
  Output :: Layer

section \<open>The forward pass\<close>

text \<open>\<^verbatim>\<open>1.0 / (1.0 + math.Pow(math.E, -sum))\<close>\<close>

definition sigmoid :: "real \<Rightarrow> real" where
  "sigmoid s = 1 / (1 + exp 1 powr (- s))"

text \<open>
  The inner loop of \<^verbatim>\<open>feedforward\<close>, \<^verbatim>\<open>sum += layer.Weight[i][j] * input[j]\<close>, over
  the remaining indices \<open>j\<close>.
\<close>

fun feedforward_sum :: "heap \<Rightarrow> Layer \<Rightarrow> addr \<Rightarrow> nat \<Rightarrow> nat list \<Rightarrow> real \<Rightarrow> panic + real" where
  "feedforward_sum h layer input i [] s = Inr s"
| "feedforward_sum h layer input i (j # js) s =
     (case row (Weight layer) i of Inl e \<Rightarrow> Inl e | Inr w \<Rightarrow>
      case get h w j of Inl e \<Rightarrow> Inl e | Inr wj \<Rightarrow>
      case get h input j of Inl e \<Rightarrow> Inl e | Inr xj \<Rightarrow>
        feedforward_sum h layer input i js (s + wj * xj))"

text \<open>The outer loop, over the remaining nodes \<open>i\<close>.\<close>

fun feedforward_nodes :: "Layer \<Rightarrow> addr \<Rightarrow> nat list \<Rightarrow> heap \<Rightarrow> panic + heap" where
  "feedforward_nodes layer input [] h = Inr h"
| "feedforward_nodes layer input (i # ns) h =
     (case get h (Bias layer) i of Inl e \<Rightarrow> Inl e | Inr b \<Rightarrow>
      case feedforward_sum h layer input i [0..<len h input] b of Inl e \<Rightarrow> Inl e | Inr s \<Rightarrow>
      case put h (value' layer) i (sigmoid s) of Inl e \<Rightarrow> Inl e | Inr h' \<Rightarrow>
        feedforward_nodes layer input ns h')"

definition feedforward :: "Layer \<Rightarrow> addr \<Rightarrow> heap \<Rightarrow> panic + (addr \<times> heap)" where
  "feedforward layer input h =
     (case feedforward_nodes layer input [0..<len h (value' layer)] h of
        Inl e \<Rightarrow> Inl e
      | Inr h' \<Rightarrow> Inr (value' layer, h'))"

definition Activate :: "Network \<Rightarrow> addr \<Rightarrow> heap \<Rightarrow> panic + (addr \<times> heap)" where
  "Activate net input h =
     (case feedforward (Hidden net) input h of Inl e \<Rightarrow> Inl e | Inr (hidden, h1) \<Rightarrow>
      case feedforward (Output net) hidden h1 of Inl e \<Rightarrow> Inl e | Inr (output, h2) \<Rightarrow>
      (case make_slice (len h2 output) h2 of (result, h3) \<Rightarrow>
         Inr (result, copy_slice result output h3)))"

subsection \<open>The forward pass of \<^verbatim>\<open>neural/neural.go\<close>\<close>

text \<open>
  The earlier version of the package, translated on its own; its sigmoid expression is
  written out where the source has it.
\<close>

fun neural_feedforward_sum ::
  "heap \<Rightarrow> Layer \<Rightarrow> addr \<Rightarrow> nat \<Rightarrow> nat list \<Rightarrow> real \<Rightarrow> panic + real" where
  "neural_feedforward_sum h layer input i [] s = Inr s"
| "neural_feedforward_sum h layer input i (j # js) s =
     (case row (Weight layer) i of Inl e \<Rightarrow> Inl e | Inr w \<Rightarrow>
      case get h w j of Inl e \<Rightarrow> Inl e | Inr wj \<Rightarrow>
      case get h input j of Inl e \<Rightarrow> Inl e | Inr xj \<Rightarrow>
        neural_feedforward_sum h layer input i js (s + wj * xj))"

fun neural_feedforward_nodes :: "Layer \<Rightarrow> addr \<Rightarrow> nat list \<Rightarrow> heap \<Rightarrow> panic + heap" where
  "neural_feedforward_nodes layer input [] h = Inr h"
| "neural_feedforward_nodes layer input (i # ns) h =
     (case get h (Bias layer) i of Inl e \<Rightarrow> Inl e | Inr b \<Rightarrow>
      case neural_feedforward_sum h layer input i [0..<len h input] b of
        Inl e \<Rightarrow> Inl e
      | Inr s \<Rightarrow>
      case put h (value' layer) i (1 / (1 + exp 1 powr (- s))) of Inl e \<Rightarrow> Inl e | Inr h' \<Rightarrow>
        neural_feedforward_nodes layer input ns h')"

definition neural_feedforward :: "Layer \<Rightarrow> addr \<Rightarrow> heap \<Rightarrow> panic + (addr \<times> heap)" where
  "neural_feedforward layer input h =
     (case neural_feedforward_nodes layer input [0..<len h (value' layer)] h of
        Inl e \<Rightarrow> Inl e
      | Inr h' \<Rightarrow> Inr (value' layer, h'))"

definition neural_Activate :: "Network \<Rightarrow> addr \<Rightarrow> heap \<Rightarrow> panic + (addr \<times> heap)" where
  "neural_Activate net input h =
     (case neural_feedforward (Hidden net) input h of Inl e \<Rightarrow> Inl e | Inr (hidden, h1) \<Rightarrow>
      case neural_feedforward (Output net) hidden h1 of Inl e \<Rightarrow> Inl e | Inr (output, h2) \<Rightarrow>
      (case make_slice (len h2 output) h2 of (result, h3) \<Rightarrow>
         Inr (result, copy_slice result output h3)))"

section \<open>Training\<close>

text \<open>
  The inner loop of \<^verbatim>\<open>backpropagate\<close> for one node: \<^verbatim>\<open>theta := weight[j]\<close>,
  \<^verbatim>\<open>residual[j] += cost * theta\<close>, \<^verbatim>\<open>weight[j] += rate * cost * input[j]\<close>.
\<close>

fun backpropagate_row ::
  "addr \<Rightarrow> addr \<Rightarrow> addr \<Rightarrow> real \<Rightarrow> real \<Rightarrow> nat list \<Rightarrow> heap \<Rightarrow> panic + heap" where
  "backpropagate_row weight residual input rate cost [] h = Inr h"
| "backpropagate_row weight residual input rate cost (j # js) h =
     (case get h weight j of Inl e \<Rightarrow> Inl e | Inr theta \<Rightarrow>
      case get h residual j of Inl e \<Rightarrow> Inl e | Inr rj \<Rightarrow>
      case put h residual j (rj + cost * theta) of Inl e \<Rightarrow> Inl e | Inr h1 \<Rightarrow>
      case get h1 weight j of Inl e \<Rightarrow> Inl e | Inr wj \<Rightarrow>
      case get h1 input j of Inl e \<Rightarrow> Inl e | Inr xj \<Rightarrow>
      case put h1 weight j (wj + rate * cost * xj) of Inl e \<Rightarrow> Inl e | Inr h2 \<Rightarrow>
        backpropagate_row weight residual input rate cost js h2)"

text \<open>
  \<^verbatim>\<open>for i, weight := range layer.Weight\<close>: the remaining rows, \<open>i\<close> the index of the
  first of them.
\<close>

fun backpropagate_rows ::
  "Layer \<Rightarrow> addr \<Rightarrow> addr \<Rightarrow> addr \<Rightarrow> real \<Rightarrow> addr list \<Rightarrow> nat \<Rightarrow> heap \<Rightarrow> panic + heap" where
  "backpropagate_rows layer residual input err rate [] i h = Inr h"
| "backpropagate_rows layer residual input err rate (weight # ws) i h =
     (case get h err i of Inl e \<Rightarrow> Inl e | Inr ei \<Rightarrow>
      case get h (value' layer) i of Inl e \<Rightarrow> Inl e | Inr vi \<Rightarrow>
      (let cost = ei * vi * (1 - vi) in
       case backpropagate_row weight residual input rate cost [0..<len h weight] h of
         Inl e \<Rightarrow> Inl e
       | Inr h1 \<Rightarrow>
       case get h1 (Bias layer) i of Inl e \<Rightarrow> Inl e | Inr bi \<Rightarrow>
       case put h1 (Bias layer) i (bi + rate * cost) of Inl e \<Rightarrow> Inl e | Inr h2 \<Rightarrow>
         backpropagate_rows layer residual input err rate ws (Suc i) h2))"

text \<open>The parameter \<open>lambda\<close> of \<^verbatim>\<open>backpropagate\<close> is not used by its body.\<close>

definition backpropagate ::
  "Layer \<Rightarrow> addr \<Rightarrow> addr \<Rightarrow> real \<Rightarrow> real \<Rightarrow> heap \<Rightarrow> panic + (addr \<times> heap)" where
  "backpropagate layer input err rate lambda h =
     (case row (Weight layer) 0 of Inl e \<Rightarrow> Inl e | Inr w0 \<Rightarrow>
      (case make_slice (len h w0) h of (residual, h1) \<Rightarrow>
       case backpropagate_rows layer residual input err rate (Weight layer) 0 h1 of
         Inl e \<Rightarrow> Inl e
       | Inr h2 \<Rightarrow> Inr (residual, h2)))"

text \<open>\<^verbatim>\<open>RegularizationGrads\<close>: \<^verbatim>\<open>weight[j] = weight[j] * lambdaOverM\<close> over a row, then over the rows.\<close>

fun RegularizationGrads_row :: "addr \<Rightarrow> real \<Rightarrow> nat list \<Rightarrow> heap \<Rightarrow> panic + heap" where
  "RegularizationGrads_row weight lambdaOverM [] h = Inr h"
| "RegularizationGrads_row weight lambdaOverM (j # js) h =
     (case get h weight j of Inl e \<Rightarrow> Inl e | Inr wj \<Rightarrow>
      case put h weight j (wj * lambdaOverM) of Inl e \<Rightarrow> Inl e | Inr h' \<Rightarrow>
        RegularizationGrads_row weight lambdaOverM js h')"

fun RegularizationGrads_rows :: "addr list \<Rightarrow> real \<Rightarrow> heap \<Rightarrow> panic + heap" where
  "RegularizationGrads_rows [] lambdaOverM h = Inr h"
| "RegularizationGrads_rows (weight # ws) lambdaOverM h =
     (case RegularizationGrads_row weight lambdaOverM [0..<len h weight] h of
        Inl e \<Rightarrow> Inl e
      | Inr h' \<Rightarrow> RegularizationGrads_rows ws lambdaOverM h')"

text \<open>
  \<^verbatim>\<open>theta1Grad = net.Hidden.Weight\<close> copies a slice header, not the rows: the two
  results are the network's own matrices.
\<close>

definition RegularizationGrads ::
  "Network \<Rightarrow> nat \<Rightarrow> real \<Rightarrow> heap \<Rightarrow> panic + (addr list \<times> addr list \<times> heap)" where
  "RegularizationGrads net numInputs lambda h =
     (let lambdaOverM = lambda / real numInputs;
          theta1Grad = Weight (Hidden net);
          theta2Grad = Weight (Output net)
      in case RegularizationGrads_rows theta1Grad lambdaOverM h of Inl e \<Rightarrow> Inl e | Inr h1 \<Rightarrow>
         case RegularizationGrads_rows theta2Grad lambdaOverM h1 of Inl e \<Rightarrow> Inl e | Inr h2 \<Rightarrow>
           Inr (theta1Grad, theta2Grad, h2))"

text \<open>\<^verbatim>\<open>SubtractGradients\<close>: \<^verbatim>\<open>weight[j] -= thetaGrad[i][j]\<close> over a row, then over the rows.\<close>

fun SubtractGradients_row :: "addr \<Rightarrow> addr list \<Rightarrow> nat \<Rightarrow> nat list \<Rightarrow> heap \<Rightarrow> panic + heap" where
  "SubtractGradients_row weight thetaGrad i [] h = Inr h"
| "SubtractGradients_row weight thetaGrad i (j # js) h =
     (case get h weight j of Inl e \<Rightarrow> Inl e | Inr wj \<Rightarrow>
      case row thetaGrad i of Inl e \<Rightarrow> Inl e | Inr t \<Rightarrow>
      case get h t j of Inl e \<Rightarrow> Inl e | Inr tj \<Rightarrow>
      case put h weight j (wj - tj) of Inl e \<Rightarrow> Inl e | Inr h' \<Rightarrow>
        SubtractGradients_row weight thetaGrad i js h')"

fun SubtractGradients_rows :: "addr list \<Rightarrow> addr list \<Rightarrow> nat \<Rightarrow> heap \<Rightarrow> panic + heap" where
  "SubtractGradients_rows [] thetaGrad i h = Inr h"
| "SubtractGradients_rows (weight # ws) thetaGrad i h =
     (case SubtractGradients_row weight thetaGrad i [0..<len h weight] h of
        Inl e \<Rightarrow> Inl e
      | Inr h' \<Rightarrow> SubtractGradients_rows ws thetaGrad (Suc i) h')"

definition SubtractGradients :: "Network \<Rightarrow> addr list \<Rightarrow> addr list \<Rightarrow> heap \<Rightarrow> panic + heap" where
  "SubtractGradients net theta1Grad theta2Grad h =
     (case SubtractGradients_rows (Weight (Hidden net)) theta1Grad 0 h of
        Inl e \<Rightarrow> Inl e
      | Inr h1 \<Rightarrow> SubtractGradients_rows (Weight (Output net)) theta2Grad 0 h1)"

text \<open>The loop of \<^verbatim>\<open>Train\<close>: \<^verbatim>\<open>err[i] = expected[i] - net.Output.value[i]\<close>.\<close>

fun Train_err :: "Network \<Rightarrow> addr \<Rightarrow> addr \<Rightarrow> nat list \<Rightarrow> heap \<Rightarrow> panic + heap" where
  "Train_err net expected err [] h = Inr h"
| "Train_err net expected err (i # ns) h =
     (case get h expected i of Inl e \<Rightarrow> Inl e | Inr xi \<Rightarrow>
      case get h (value' (Output net)) i of Inl e \<Rightarrow> Inl e | Inr vi \<Rightarrow>
      case put h err i (xi - vi) of Inl e \<Rightarrow> Inl e | Inr h' \<Rightarrow>
        Train_err net expected err ns h')"

definition Train :: "Network \<Rightarrow> addr \<Rightarrow> addr \<Rightarrow> real \<Rightarrow> real \<Rightarrow> heap \<Rightarrow> panic + heap" where
  "Train net input expected rate lambda h =
     (let m = len h input in
      case RegularizationGrads net m lambda h of
        Inl e \<Rightarrow> Inl e
      | Inr (theta1Grad, theta2Grad, h1) \<Rightarrow>
      (case make_slice (len h1 (value' (Output net))) h1 of (err, h2) \<Rightarrow>
       case Train_err net expected err [0..<len h2 err] h2 of Inl e \<Rightarrow> Inl e | Inr h3 \<Rightarrow>
       case backpropagate (Output net) (value' (Hidden net)) err rate lambda h3 of
         Inl e \<Rightarrow> Inl e
       | Inr (residual, h4) \<Rightarrow>
       case backpropagate (Hidden net) input residual rate lambda h4 of
         Inl e \<Rightarrow> Inl e
       | Inr (r, h5) \<Rightarrow> SubtractGradients net theta1Grad theta2Grad h5))"

section \<open>Cost functions\<close>





section \<open>Loading\<close>

text \<open>\<^verbatim>\<open>layer.value = make([]float64, len(layer.Weight))\<close>\<close>

definition initialize :: "Layer \<Rightarrow> heap \<Rightarrow> Layer \<times> heap" where
  "initialize layer h =
     (case make_slice (length (Weight layer)) h of (v, h') \<Rightarrow> (layer\<lparr>value' := v\<rparr>, h'))"

text \<open>
  \<^verbatim>\<open>LoadNetwork\<close> starts from \<^verbatim>\<open>new(Network)\<close>, whose two layer pointers are nil, and
  hands it to the JSON decoder of the standard library. \<open>Decoded\<close> is what the decoder
  left behind: whether \<^verbatim>\<open>Decode\<close> returned an error, and the two pointers, nil or a
  layer whose \<open>Weight\<close> and \<open>Bias\<close> the decoder filled in as far as the record gave
  them (the unexported \<open>value\<close> is never decoded; \<open>initialize\<close> overwrites it). The
  heap argument is the heap after decoding. The source drops the error.
\<close>

record Decoded =
  decode_error :: bool
  Hidden_ptr :: "Layer option"
  Output_ptr :: "Layer option"

definition LoadNetwork :: "Decoded \<Rightarrow> heap \<Rightarrow> panic + (Network \<times> heap)" where
  "LoadNetwork dec h =
     (case Hidden_ptr dec of None \<Rightarrow> Inl NilDereference | Some hidden \<Rightarrow>
      (case initialize hidden h of (hidden', h1) \<Rightarrow>
       case Output_ptr dec of None \<Rightarrow> Inl NilDereference | Some output \<Rightarrow>
       (case initialize output h1 of (output', h2) \<Rightarrow>
          Inr (\<lparr>Hidden = hidden', Output = output'\<rparr>, h2))))"


section \<open>Reading a layer off the heap; well-formed networks\<close>

text \<open>The contents of a layer's three slices in a heap.\<close>

definition weights :: "heap \<Rightarrow> Layer \<Rightarrow> real list list" where
  "weights h layer = map (arr h) (Weight layer)"

definition bias :: "heap \<Rightarrow> Layer \<Rightarrow> real list" where
  "bias h layer = arr h (Bias layer)"

definition activation :: "heap \<Rightarrow> Layer \<Rightarrow> real list" where
  "activation h layer = arr h (value' layer)"

text \<open>
  The invariant of the data model: the slices of a layer are allocated and pairwise
  distinct (each comes from its own \<^verbatim>\<open>make\<close>), every row has \<open>n\<close> entries, and there
  is one bias and one activation per row. In a network the hidden node count is the
  output layer's input count and the two layers share no array.
\<close>

definition layer_addrs :: "Layer \<Rightarrow> addr list" where
  "layer_addrs layer = value' layer # Bias layer # Weight layer"

definition wf_layer :: "heap \<Rightarrow> nat \<Rightarrow> Layer \<Rightarrow> bool" where
  "wf_layer h n layer \<longleftrightarrow>
     list_all (\<lambda>a. a < length h) (layer_addrs layer) \<and>
     distinct (layer_addrs layer) \<and>
     list_all (\<lambda>w. len h w = n) (Weight layer) \<and>
     len h (Bias layer) = length (Weight layer) \<and>
     len h (value' layer) = length (Weight layer)"

definition wf_net :: "heap \<Rightarrow> nat \<Rightarrow> Network \<Rightarrow> bool" where
  "wf_net h n net \<longleftrightarrow>
     wf_layer h n (Hidden net) \<and>
     wf_layer h (length (Weight (Hidden net))) (Output net) \<and>
     distinct (layer_addrs (Hidden net) @ layer_addrs (Output net))"

text \<open>
  The dense layer in the specification's words: for each node \<open>i\<close>,
  \<open>sum = bias[i] + \<Sum>\<^sub>j weights[i][j] * input[j]\<close> and
  \<open>activation[i] = 1 / (1 + e\<^sup>-\<^sup>s\<^sup>u\<^sup>m)\<close>.
\<close>

definition spec_feedforward :: "real list list \<Rightarrow> real list \<Rightarrow> real list \<Rightarrow> real list" where
  "spec_feedforward W b x =
     map (\<lambda>i. 1 / (1 + exp (- (b ! i + (\<Sum>j<length x. W ! i ! j * x ! j))))) [0..<length W]"

text \<open>What one pass of the inner loop of \<^verbatim>\<open>feedforward\<close> stores for node \<open>i\<close>.\<close>

definition node :: "heap \<Rightarrow> Layer \<Rightarrow> addr \<Rightarrow> nat \<Rightarrow> real" where
  "node h layer input i =
     sigmoid (arr h (Bias layer) ! i +
       (\<Sum>j\<leftarrow>[0..<len h input]. arr h (Weight layer ! i) ! j * arr h input ! j))"

section \<open>The quantities of training\<close>

text \<open>
  The local delta of node \<open>i\<close> in \<^verbatim>\<open>backpropagate\<close>:
  \<open>cost\<^sub>i = err\<^sub>i * activation\<^sub>i * (1 - activation\<^sub>i)\<close>.
\<close>

definition cost_of :: "heap \<Rightarrow> Layer \<Rightarrow> addr \<Rightarrow> nat \<Rightarrow> real" where
  "cost_of h layer err i =
     arr h err ! i * arr h (value' layer) ! i * (1 - arr h (value' layer) ! i)"



text \<open>
  The training step in the specification's words, on matrices and vectors: the decay
  matrices \<open>theta1Grad\<close> and \<open>theta2Grad\<close> are the weights at the start times
  \<open>lambda / m\<close>; \<open>err[i] = expected[i] - output.activation[i]\<close>; backpropagation runs
  through the output layer, then through the hidden layer with the residual; at the end
  the decay matrices are subtracted elementwise. The result is the pair of final weight
  matrices (hidden, output).
\<close>

definition spec_cost :: "real list \<Rightarrow> real list \<Rightarrow> nat \<Rightarrow> real" where
  "spec_cost err act i = err ! i * act ! i * (1 - act ! i)"

definition spec_residual :: "real list list \<Rightarrow> real list \<Rightarrow> real list \<Rightarrow> nat \<Rightarrow> real list" where
  "spec_residual W act err n =
     map (\<lambda>j. \<Sum>i<length W. spec_cost err act i * W ! i ! j) [0..<n]"

definition spec_backpropagate ::
  "real list list \<Rightarrow> real list \<Rightarrow> real list \<Rightarrow> real list \<Rightarrow> real \<Rightarrow> real list list" where
  "spec_backpropagate W act x err rate =
     map (\<lambda>i. map (\<lambda>j. W ! i ! j + rate * spec_cost err act i * x ! j) [0..<length x])
       [0..<length W]"

definition spec_train_weights ::
  "real list list \<Rightarrow> real list \<Rightarrow> real list list \<Rightarrow> real list \<Rightarrow> real list \<Rightarrow> real list \<Rightarrow>
   real \<Rightarrow> real \<Rightarrow> real list list \<times> real list list" where
  "spec_train_weights W1 act1 W2 act2 x expected rate lambda =
     (let m = real (length x);
          theta1Grad = map (map (\<lambda>w. w * (lambda / m))) W1;
          theta2Grad = map (map (\<lambda>w. w * (lambda / m))) W2;
          err = map (\<lambda>i. expected ! i - act2 ! i) [0..<length act2];
          residual = spec_residual W2 act2 err (length act1);
          W2' = spec_backpropagate W2 act2 act1 err rate;
          W1' = spec_backpropagate W1 act1 x residual rate
      in (map2 (map2 (-)) W1' theta1Grad, map2 (map2 (-)) W2' theta2Grad))"

section \<open>Concrete networks\<close>

text \<open>
  A 1-1-1 network with hidden weight 1 and bias -1, output weight 2 and bias -1. The
  slice at address 6 holds the input \<open>[1]\<close>, the slice at 7 the target \<open>[1]\<close>, the
  slice at 8 another vector \<open>[0]\<close>. On this input both weighted sums are 0 and both
  activations are exactly 1/2; \<open>example_active\<close> is the heap after \<^verbatim>\<open>Activate\<close>, with
  the returned copy at address 9.
\<close>

definition example_heap :: heap where
  "example_heap = [[1], [-1], [0], [2], [-1], [0], [1], [1], [0]]"

definition example_net :: Network where
  "example_net = \<lparr>Hidden = \<lparr>Weight = [0], Bias = 1, value' = 2\<rparr>,
                   Output = \<lparr>Weight = [3], Bias = 4, value' = 5\<rparr>\<rparr>"

definition example_active :: heap where
  "example_active = [[1], [-1], [1 / 2], [2], [-1], [1 / 2], [1], [1], [0], [1 / 2]]"

text \<open>
  A single node over two inputs, both weights 1 and bias -1, with an input \<open>[1]\<close> of
  length 1 at address 3 and an input of length 3 at address 4.
\<close>

definition wide_heap :: heap where
  "wide_heap = [[1, 1], [-1], [0], [1], [1, 1, 1]]"

definition wide_layer :: Layer where
  "wide_layer = \<lparr>Weight = [0], Bias = 1, value' = 2\<rparr>"





section \<open>Heap lemmas and the forward pass\<close>

lemma arr_update [simp]: "arr (h[a := xs]) b = (if b = a \<and> a < length h then xs else arr h b)"
  by (simp add: arr_def)

lemma update_arr_id [simp]: "h[a := arr h a] = h"
  by (cases "a < length h") (simp_all add: arr_def list_update_beyond)

lemma len_lt_valid: "j < len h a \<Longrightarrow> a < length h"
  by (simp add: len_def arr_def split: if_splits)

lemma get_Inr: "j < len h a \<Longrightarrow> get h a j = Inr (arr h a ! j)"
  by (simp add: get_def)

lemma put_Inr: "j < len h a \<Longrightarrow> put h a j v = Inr (h[a := (arr h a)[j := v]])"
  by (simp add: put_def)

lemma row_Inr: "i < length ws \<Longrightarrow> row ws i = Inr (ws ! i)"
  by (simp add: row_def)

lemma len_update: "length xs = len h a \<Longrightarrow> len (h[a := xs]) b = len h b"
  by (cases "b = a") (auto simp: len_def arr_def)

lemma feedforward_sum_Inr:
  assumes "i < length (Weight layer)"
    and "\<forall>j\<in>set js. j < len h (Weight layer ! i) \<and> j < len h input"
  shows "feedforward_sum h layer input i js s =
         Inr (s + (\<Sum>j\<leftarrow>js. arr h (Weight layer ! i) ! j * arr h input ! j))"
  using assms
  by (induction js arbitrary: s) (simp_all add: row_Inr get_Inr add.assoc)

lemma node_update:
  assumes "v \<noteq> Bias layer" "v \<noteq> input" "v \<notin> set (Weight layer)" "i < length (Weight layer)"
  shows "node (h[v := xs]) layer input i = node h layer input i"
proof -
  have "Weight layer ! i \<noteq> v" using assms by (metis nth_mem)
  then show ?thesis using assms by (simp add: node_def len_def)
qed

lemma feedforward_nodes_Inr:
  assumes "value' layer \<noteq> Bias layer" "value' layer \<noteq> input" "value' layer \<notin> set (Weight layer)"
    and "\<forall>i\<in>set ns. i < len h (value' layer) \<and> i < len h (Bias layer) \<and> i < length (Weight layer)
            \<and> len h input \<le> len h (Weight layer ! i)"
  shows "feedforward_nodes layer input ns h =
         Inr (h[value' layer := fold (\<lambda>i xs. xs[i := node h layer input i]) ns (arr h (value' layer))])"
  using assms
proof (induction ns arbitrary: h)
  case Nil
  then show ?case by simp
next
  case (Cons i ns)
  let ?v = "value' layer"
  let ?h1 = "h[?v := (arr h ?v)[i := node h layer input i]]"
  have i: "i < len h ?v" "i < len h (Bias layer)" "i < length (Weight layer)"
    "len h input \<le> len h (Weight layer ! i)" using Cons.prems(4) by auto
  have v: "?v < length h" using i(1) by (rule len_lt_valid)
  have s: "feedforward_sum h layer input i [0..<len h input] (arr h (Bias layer) ! i)
        = Inr (arr h (Bias layer) ! i +
           (\<Sum>j\<leftarrow>[0..<len h input]. arr h (Weight layer ! i) ! j * arr h input ! j))"
    using i by (intro feedforward_sum_Inr) auto
  have lens: "\<And>b. len ?h1 b = len h b" by (simp add: len_update len_def)
  have "\<forall>k\<in>set ns. Weight layer ! k \<noteq> ?v" using Cons.prems(3,4) by (metis list.set_intros(2) nth_mem)
  then have pre: "\<forall>k\<in>set ns. k < len ?h1 ?v \<and> k < len ?h1 (Bias layer) \<and> k < length (Weight layer)
            \<and> len ?h1 input \<le> len ?h1 (Weight layer ! k)"
    using Cons.prems(4) by (simp add: lens)
  have nd: "\<And>k. k < length (Weight layer) \<Longrightarrow> node ?h1 layer input k = node h layer input k"
    using Cons.prems(1-3) by (simp add: node_update)
  have fold_eq: "fold (\<lambda>i xs. xs[i := node ?h1 layer input i]) ns ys
               = fold (\<lambda>i xs. xs[i := node h layer input i]) ns ys" for ys
    using Cons.prems(4) nd by (intro fold_cong) auto
  have "feedforward_nodes layer input (i # ns) h = feedforward_nodes layer input ns ?h1"
    using i s by (simp add: get_Inr put_Inr node_def)
  also have "\<dots> = Inr (?h1[?v := fold (\<lambda>i xs. xs[i := node ?h1 layer input i]) ns (arr ?h1 ?v)])"
    using Cons.prems(1-3) pre by (intro Cons.IH) 
  finally show ?case using v by (simp add: fold_eq)
qed

lemma sigmoid_exp: "sigmoid s = 1 / (1 + exp (- s))"
  by (simp add: sigmoid_def powr_def)

lemma fold_update_upt:
  "k \<le> length xs \<Longrightarrow> fold (\<lambda>i ys. ys[i := f i]) [0..<k] xs = map f [0..<k] @ drop k xs"
proof (induction k)
  case 0
  then show ?case by simp
next
  case (Suc k)
  then have "fold (\<lambda>i ys. ys[i := f i]) [0..<Suc k] xs = (map f [0..<k] @ drop k xs)[k := f k]"
    by simp
  also have "\<dots> = map f [0..<k] @ (drop k xs)[0 := f k]"
    by (simp add: list_update_append)
  also have "(drop k xs)[0 := f k] = f k # drop (Suc k) xs"
    using Suc.prems by (simp add: Cons_nth_drop_Suc [symmetric])
  finally show ?case by simp
qed

lemma node_spec:
  assumes "i < length (Weight layer)"
  shows "node h layer input i = spec_feedforward (weights h layer) (bias h layer) (arr h input) ! i"
proof -
  have "(\<Sum>j\<leftarrow>[0..<len h input]. arr h (Weight layer ! i) ! j * arr h input ! j)
      = (\<Sum>j<len h input. arr h (Weight layer ! i) ! j * arr h input ! j)"
    by (simp add: interv_sum_list_conv_sum_set_nat atLeast0LessThan)
  then show ?thesis using assms
    by (simp add: node_def spec_feedforward_def weights_def bias_def sigmoid_exp len_def)
qed

lemma wf_layerD:
  assumes "wf_layer h n layer"
  shows "value' layer < length h" "Bias layer < length h" "\<And>w. w \<in> set (Weight layer) \<Longrightarrow> w < length h"
    "value' layer \<noteq> Bias layer" "value' layer \<notin> set (Weight layer)" "Bias layer \<notin> set (Weight layer)"
    "distinct (Weight layer)" "\<And>w. w \<in> set (Weight layer) \<Longrightarrow> len h w = n"
    "len h (Bias layer) = length (Weight layer)" "len h (value' layer) = length (Weight layer)"
  using assms by (auto simp: wf_layer_def layer_addrs_def list_all_iff)

lemma feedforward_spec:
  assumes wf: "wf_layer h n layer" and inp: "value' layer \<noteq> input" "len h input \<le> n"
  shows "feedforward layer input h =
         Inr (value' layer,
              h[value' layer := spec_feedforward (weights h layer) (bias h layer) (arr h input)])"
proof -
  let ?v = "value' layer" and ?m = "length (Weight layer)"
  note d = wf_layerD [OF wf]
  have "feedforward_nodes layer input [0..<?m] h =
         Inr (h[?v := fold (\<lambda>i xs. xs[i := node h layer input i]) [0..<?m] (arr h ?v)])"
    using d inp by (intro feedforward_nodes_Inr) auto
  moreover have "fold (\<lambda>i xs. xs[i := node h layer input i]) [0..<?m] (arr h ?v)
      = map (node h layer input) [0..<?m]"
    using d(10) by (simp add: fold_update_upt len_def)
  moreover have "map (node h layer input) [0..<?m]
      = spec_feedforward (weights h layer) (bias h layer) (arr h input)"
    by (rule nth_equalityI) (simp_all add: node_spec spec_feedforward_def weights_def)
  ultimately show ?thesis using d(10) by (simp add: feedforward_def)
qed

lemma weights_update:
  "v \<notin> set (Weight layer) \<Longrightarrow> weights (h[v := xs]) layer = weights h layer"
  by (auto simp: weights_def)

lemma bias_update: "v \<noteq> Bias layer \<Longrightarrow> bias (h[v := xs]) layer = bias h layer"
  by (simp add: bias_def)

lemma wf_layer_update:
  assumes "wf_layer h n layer" "v \<notin> set (layer_addrs layer)"
  shows "wf_layer (h[v := xs]) n layer"
proof -
  have "\<And>a. a \<in> set (layer_addrs layer) \<Longrightarrow> len (h[v := xs]) a = len h a"
    using assms(2) by (auto simp: len_def)
  then show ?thesis using assms(1)
    by (simp add: wf_layer_def layer_addrs_def list_all_iff)
qed

lemma Activate_heap:
  assumes wf: "wf_net h n net" and inp: "len h input \<le> n" "input \<noteq> value' (Hidden net)"
  defines "a1 \<equiv> spec_feedforward (weights h (Hidden net)) (bias h (Hidden net)) (arr h input)"
  defines "a2 \<equiv> spec_feedforward (weights h (Output net)) (bias h (Output net)) a1"
  shows "Activate net input h =
         Inr (length h, h[value' (Hidden net) := a1, value' (Output net) := a2] @ [a2])"
proof -
  let ?H = "Hidden net" and ?O = "Output net"
  let ?h1 = "h[value' ?H := a1]"
  let ?h2 = "?h1[value' ?O := a2]"
  have wfH: "wf_layer h n ?H" and wfO: "wf_layer h (length (Weight ?H)) ?O"
    and dis: "distinct (layer_addrs ?H @ layer_addrs ?O)"
    using wf by (simp_all add: wf_net_def)
  note dH = wf_layerD [OF wfH] and dO = wf_layerD [OF wfO]
  have vH: "value' ?H \<notin> set (layer_addrs ?O)" using dis by (auto simp: layer_addrs_def)
  have f1: "feedforward ?H input h = Inr (value' ?H, ?h1)"
    unfolding a1_def using wfH inp by (intro feedforward_spec) auto
  have wfO1: "wf_layer ?h1 (length (Weight ?H)) ?O"
    using wfO vH by (rule wf_layer_update)
  have la1: "length a1 = length (Weight ?H)"
    by (simp add: a1_def spec_feedforward_def weights_def)
  have "feedforward ?O (value' ?H) ?h1 = Inr (value' ?O,
          ?h1[value' ?O := spec_feedforward (weights ?h1 ?O) (bias ?h1 ?O) (arr ?h1 (value' ?H))])"
    using wfO1 vH dH(1) la1 by (intro feedforward_spec) (auto simp: layer_addrs_def len_def)
  moreover have "weights ?h1 ?O = weights h ?O" "bias ?h1 ?O = bias h ?O"
    using vH by (simp_all add: weights_update bias_update layer_addrs_def)
  moreover have "arr ?h1 (value' ?H) = a1" using dH(1) by simp
  ultimately have f2: "feedforward ?O (value' ?H) ?h1 = Inr (value' ?O, ?h2)"
    by (simp add: a2_def)
  have la2: "len ?h2 (value' ?O) = length a2" using dO(1) by (simp add: len_def)
  have "copy_slice (length h) (value' ?O) (?h2 @ [replicate (length a2) 0]) = ?h2 @ [a2]"
    using dO(1) by (simp add: copy_slice_def len_def arr_def nth_append list_update_append)
  then show ?thesis
    using f1 f2 la2 by (simp add: Activate_def make_slice_def)
qed

lemma neural_feedforward_sum_eq:
  "neural_feedforward_sum h layer input i js s = feedforward_sum h layer input i js s"
  by (induction js arbitrary: s) (simp_all split: sum.splits)

lemma neural_feedforward_nodes_eq:
  "neural_feedforward_nodes layer input ns h = feedforward_nodes layer input ns h"
  by (induction ns arbitrary: h) (simp_all add: neural_feedforward_sum_eq sigmoid_def split: sum.splits)

lemma neural_feedforward_eq: "neural_feedforward = feedforward"
  by (intro ext) (simp add: neural_feedforward_def feedforward_def neural_feedforward_nodes_eq)

lemma neural_Activate_eq: "neural_Activate net input h = Activate net input h"
  unfolding neural_Activate_def Activate_def neural_feedforward_eq by (rule refl)

lemma feedforward_sum_Inl:
  assumes "i < length (Weight layer)" "\<exists>j\<in>set js. \<not> j < len h (Weight layer ! i)"
  shows "feedforward_sum h layer input i js s = Inl IndexOutOfRange"
  using assms
proof (induction js arbitrary: s)
  case Nil
  then show ?case by simp
next
  case (Cons j js)
  show ?case
  proof (cases "j < len h (Weight layer ! i)")
    case False
    then show ?thesis using Cons.prems(1) by (simp add: row_Inr get_def)
  next
    case True
    then have "\<exists>j\<in>set js. \<not> j < len h (Weight layer ! i)" using Cons.prems(2) by auto
    then have "\<And>s. feedforward_sum h layer input i js s = Inl IndexOutOfRange"
      using Cons.IH Cons.prems(1) by blast
    then show ?thesis using Cons.prems(1) True
      by (simp add: row_Inr get_Inr get_def)
  qed
qed

lemma feedforward_too_long:
  assumes wf: "wf_layer h n layer" and "n < len h input" "Weight layer \<noteq> []"
  shows "feedforward layer input h = Inl IndexOutOfRange"
proof -
  note d = wf_layerD [OF wf]
  let ?m = "length (Weight layer)"
  have m: "0 < ?m" using assms(3) by simp
  then have up: "[0..<?m] = 0 # [1..<?m]" by (simp add: upt_conv_Cons)
  have "len h (Weight layer ! 0) = n" using d(8) m by simp
  then have "\<exists>j\<in>set [0..<len h input]. \<not> j < len h (Weight layer ! 0)"
    using assms(2) by auto
  then have "feedforward_sum h layer input 0 [0..<len h input] (arr h (Bias layer) ! 0) = Inl IndexOutOfRange"
    using m by (intro feedforward_sum_Inl) auto
  then have "feedforward_nodes layer input [0..<?m] h = Inl IndexOutOfRange"
    using m d(9) by (simp add: up get_Inr)
  then show ?thesis using d(10) by (simp add: feedforward_def)
qed

lemma arr_append: "arr (h @ [xs]) a = (if a = length h then xs else arr h a)"
  by (auto simp: arr_def nth_append)

lemma weights_append:
  "\<forall>w\<in>set (Weight layer). w < length h \<Longrightarrow> weights (h @ [xs]) layer = weights h layer"
  by (auto simp: weights_def arr_append)



section \<open>Backpropagation through one layer\<close>

lemma update_twice:
  "r \<noteq> w \<Longrightarrow> h[r := a, w := b, r := c, w := d] = h[r := c, w := d]"
  by (simp add: list_update_swap [of r w])

lemma backpropagate_row_fold:
  assumes "weight \<noteq> residual" "weight \<noteq> input" "residual \<noteq> input" "distinct js"
    and "\<forall>j\<in>set js. j < len h weight \<and> j < len h residual \<and> j < len h input"
  shows "backpropagate_row weight residual input rate cost js h =
         Inr (h[residual := fold (\<lambda>j ys. ys[j := arr h residual ! j + cost * arr h weight ! j]) js
                              (arr h residual),
                weight := fold (\<lambda>j ys. ys[j := arr h weight ! j + rate * cost * arr h input ! j]) js
                              (arr h weight)])"
  using assms
proof (induction js arbitrary: h)
  case Nil
  then show ?case by simp
next
  case (Cons j js)
  let ?R = "arr h residual" and ?W = "arr h weight" and ?X = "arr h input"
  let ?R1 = "?R[j := ?R ! j + cost * ?W ! j]"
  let ?W1 = "?W[j := ?W ! j + rate * cost * ?X ! j]"
  let ?h1 = "h[residual := ?R1]"
  let ?h2 = "?h1[weight := ?W1]"
  have j: "j < len h weight" "j < len h residual" "j < len h input" "j \<notin> set js" "distinct js"
    using Cons.prems(4,5) by auto
  have v: "weight < length h" "residual < length h"
    using j(1,2) by (auto dest: len_lt_valid)
  have a1: "arr ?h1 weight = ?W" "arr ?h1 input = ?X" "len ?h1 weight = len h weight"
    "len ?h1 input = len h input"
    using Cons.prems(1-3) by (simp_all add: len_def)
  have a2: "arr ?h2 residual = ?R1" "arr ?h2 weight = ?W1" "arr ?h2 input = ?X"
    using Cons.prems(1-3) v by simp_all
  have step: "backpropagate_row weight residual input rate cost (j # js) h
            = backpropagate_row weight residual input rate cost js ?h2"
    using j a1 by (simp add: get_Inr put_Inr)
  have pre: "\<forall>k\<in>set js. k < len ?h2 weight \<and> k < len ?h2 residual \<and> k < len ?h2 input"
    using Cons.prems(5) a2 by (simp add: len_def)
  have ih: "backpropagate_row weight residual input rate cost js ?h2 =
         Inr (?h2[residual := fold (\<lambda>k ys. ys[k := arr ?h2 residual ! k + cost * arr ?h2 weight ! k]) js
                              (arr ?h2 residual),
                weight := fold (\<lambda>k ys. ys[k := arr ?h2 weight ! k + rate * cost * arr ?h2 input ! k]) js
                              (arr ?h2 weight)])"
    using Cons.prems(1-3) j(5) pre by (rule Cons.IH)
  have neq: "\<And>k. k \<in> set js \<Longrightarrow> j \<noteq> k" using j(4) by auto
  have f1: "fold (\<lambda>k ys. ys[k := ?R1 ! k + cost * ?W1 ! k]) js ys
          = fold (\<lambda>k ys. ys[k := ?R ! k + cost * ?W ! k]) js ys" for ys
    by (intro fold_cong) (simp_all add: neq)
  have f2: "fold (\<lambda>k ys. ys[k := ?W1 ! k + rate * cost * ?X ! k]) js ys
          = fold (\<lambda>k ys. ys[k := ?W ! k + rate * cost * ?X ! k]) js ys" for ys
    by (intro fold_cong) (simp_all add: neq)
  show ?case
    unfolding step ih a2 f1 f2 using Cons.prems(1)
    by (simp add: update_twice)
qed

lemma backpropagate_row_Inr:
  assumes "weight \<noteq> residual" "weight \<noteq> input" "residual \<noteq> input"
    and "len h weight = n" "len h residual = n" "n \<le> len h input"
  shows "backpropagate_row weight residual input rate cost [0..<n] h =
         Inr (h[residual := map (\<lambda>j. arr h residual ! j + cost * arr h weight ! j) [0..<n],
                weight := map (\<lambda>j. arr h weight ! j + rate * cost * arr h input ! j) [0..<n]])"
proof -
  have "backpropagate_row weight residual input rate cost [0..<n] h =
         Inr (h[residual := fold (\<lambda>j ys. ys[j := arr h residual ! j + cost * arr h weight ! j]) [0..<n]
                              (arr h residual),
                weight := fold (\<lambda>j ys. ys[j := arr h weight ! j + rate * cost * arr h input ! j]) [0..<n]
                              (arr h weight)])"
    using assms by (intro backpropagate_row_fold) auto
  then show ?thesis
    using assms(4,5) by (simp add: fold_update_upt len_def)
qed

lemma cost_of_cong:
  "arr h' err = arr h err \<Longrightarrow> arr h' (value' layer) = arr h (value' layer) \<Longrightarrow>
   cost_of h' layer err = cost_of h layer err"
  by (intro ext) (simp add: cost_of_def)

lemma backpropagate_rows_post:
  assumes dist: "distinct ws" "residual \<notin> set ws" "Bias layer \<notin> set ws" "input \<notin> set ws"
      "err \<notin> set ws" "value' layer \<notin> set ws"
      "residual \<noteq> Bias layer" "residual \<noteq> input" "residual \<noteq> err" "residual \<noteq> value' layer"
      "Bias layer \<noteq> input" "Bias layer \<noteq> err" "Bias layer \<noteq> value' layer"
    and valid: "\<forall>w\<in>set ws. w < length h" "residual < length h" "Bias layer < length h"
    and lens: "\<forall>w\<in>set ws. len h w = n" "len h residual = n" "n \<le> len h input"
      "i + length ws \<le> len h err" "i + length ws \<le> len h (value' layer)"
      "i + length ws \<le> len h (Bias layer)"
  shows "\<exists>h'. backpropagate_rows layer residual input err rate ws i h = Inr h' \<and>
           length h' = length h \<and>
           (\<forall>a. a \<notin> set ws \<longrightarrow> a \<noteq> residual \<longrightarrow> a \<noteq> Bias layer \<longrightarrow> arr h' a = arr h a) \<and>
           (\<forall>k<length ws. arr h' (ws ! k) =
              map (\<lambda>j. arr h (ws ! k) ! j + rate * cost_of h layer err (i + k) * arr h input ! j) [0..<n]) \<and>
           arr h' residual =
              map (\<lambda>j. arr h residual ! j + (\<Sum>k<length ws. cost_of h layer err (i + k) * arr h (ws ! k) ! j))
                [0..<n] \<and>
           arr h' (Bias layer) =
              map (\<lambda>k. if i \<le> k \<and> k < i + length ws
                       then arr h (Bias layer) ! k + rate * cost_of h layer err k
                       else arr h (Bias layer) ! k) [0..<len h (Bias layer)]"
  using assms
proof (induction ws arbitrary: i h)
  case Nil
  have "arr h residual = map (\<lambda>j. arr h residual ! j) [0..<n]"
    using Nil.prems(18) unfolding len_def by (metis map_nth)
  moreover have "arr h (Bias layer) = map (\<lambda>k. arr h (Bias layer) ! k) [0..<len h (Bias layer)]"
    unfolding len_def by (metis map_nth)
  moreover have "(\<lambda>k. if i \<le> k \<and> k < i then arr h (Bias layer) ! k + rate * cost_of h layer err k
                        else arr h (Bias layer) ! k) = (\<lambda>k. arr h (Bias layer) ! k)"
    by (intro ext) simp
  ultimately show ?case by simp
next
  case (Cons w ws)
  let ?b = "Bias layer" and ?v = "value' layer"
  let ?R = "arr h residual" and ?W = "arr h w" and ?X = "arr h input" and ?B = "arr h ?b"
  let ?c = "cost_of h layer err"
  let ?R1 = "map (\<lambda>j. ?R ! j + ?c i * ?W ! j) [0..<n]"
  let ?W1 = "map (\<lambda>j. ?W ! j + rate * ?c i * ?X ! j) [0..<n]"
  let ?B1 = "?B[i := ?B ! i + rate * ?c i]"
  let ?h1 = "h[residual := ?R1, w := ?W1]"
  define h2 where "h2 = ?h1[?b := ?B1]"
  have d: "distinct ws" "w \<notin> set ws" "residual \<noteq> w" "?b \<noteq> w" "input \<noteq> w" "err \<noteq> w" "?v \<noteq> w"
    "residual \<notin> set ws" "?b \<notin> set ws" "input \<notin> set ws" "err \<notin> set ws" "?v \<notin> set ws"
    using Cons.prems(1-6) by auto
  have vl: "w < length h" "\<forall>w\<in>set ws. w < length h" using Cons.prems(14) by auto
  have l: "len h w = n" "\<forall>w\<in>set ws. len h w = n" "i < len h err" "i < len h ?v" "i < len h ?b"
    "Suc i + length ws \<le> len h err" "Suc i + length ws \<le> len h ?v" "Suc i + length ws \<le> len h ?b"
    using Cons.prems(17,20,21,22) by auto
  have row: "backpropagate_row w residual input rate (?c i) [0..<n] h = Inr ?h1"
    using d(3,5) Cons.prems(8) l(1) Cons.prems(18,19) by (intro backpropagate_row_Inr) auto
  have b1: "arr ?h1 ?b = ?B" "len ?h1 ?b = len h ?b"
    using d(4) Cons.prems(7) by (simp_all add: len_def)
  have step: "backpropagate_rows layer residual input err rate (w # ws) i h
            = backpropagate_rows layer residual input err rate ws (Suc i) h2"
    unfolding h2_def using l(1,3,4,5) row b1 by (simp add: get_Inr put_Inr cost_of_def Let_def)
  have arr2: "\<And>a. arr h2 a = (if a = ?b then ?B1 else if a = w then ?W1
                                 else if a = residual then ?R1 else arr h a)"
    unfolding h2_def using vl(1) Cons.prems(15,16) by simp
  have len2: "\<And>a. len h2 a = len h a"
    using l(1,5) Cons.prems(18) by (simp add: len_def arr2)
  have length2: "length h2 = length h" by (simp add: h2_def)
  have unch: "arr h2 input = ?X" "arr h2 err = arr h err" "arr h2 ?v = arr h ?v"
    "\<And>a. a \<in> set ws \<Longrightarrow> arr h2 a = arr h a"
    using d Cons.prems(7-13) by (auto simp: arr2)
  have ch: "arr h2 residual = ?R1" "arr h2 ?b = ?B1" "arr h2 w = ?W1"
    using d(3,4) Cons.prems(7) by (simp_all add: arr2)
  have c2: "cost_of h2 layer err = ?c"
    using unch(2,3) by (rule cost_of_cong)
  have "\<exists>h'. backpropagate_rows layer residual input err rate ws (Suc i) h2 = Inr h' \<and>
           length h' = length h2 \<and>
           (\<forall>a. a \<notin> set ws \<longrightarrow> a \<noteq> residual \<longrightarrow> a \<noteq> ?b \<longrightarrow> arr h' a = arr h2 a) \<and>
           (\<forall>k<length ws. arr h' (ws ! k) =
              map (\<lambda>j. arr h2 (ws ! k) ! j + rate * cost_of h2 layer err (Suc i + k) * arr h2 input ! j) [0..<n]) \<and>
           arr h' residual =
              map (\<lambda>j. arr h2 residual ! j + (\<Sum>k<length ws. cost_of h2 layer err (Suc i + k) * arr h2 (ws ! k) ! j))
                [0..<n] \<and>
           arr h' ?b =
              map (\<lambda>k. if Suc i \<le> k \<and> k < Suc i + length ws
                       then arr h2 ?b ! k + rate * cost_of h2 layer err k
                       else arr h2 ?b ! k) [0..<len h2 ?b]"
    using d(1,8-12) Cons.prems(7-13) vl(2) Cons.prems(15,16) l(2) Cons.prems(18,19) l(6-8)
    by (intro Cons.IH) (simp_all add: len2 length2)
  then obtain h' where run: "backpropagate_rows layer residual input err rate ws (Suc i) h2 = Inr h'"
    and len': "length h' = length h2"
    and frame: "\<And>a. a \<notin> set ws \<Longrightarrow> a \<noteq> residual \<Longrightarrow> a \<noteq> ?b \<Longrightarrow> arr h' a = arr h2 a"
    and rows0: "\<And>k. k < length ws \<Longrightarrow> arr h' (ws ! k) =
              map (\<lambda>j. arr h2 (ws ! k) ! j + rate * cost_of h2 layer err (Suc i + k) * arr h2 input ! j) [0..<n]"
    and res0: "arr h' residual =
              map (\<lambda>j. arr h2 residual ! j + (\<Sum>k<length ws. cost_of h2 layer err (Suc i + k) * arr h2 (ws ! k) ! j))
                [0..<n]"
    and bia0: "arr h' ?b =
              map (\<lambda>k. if Suc i \<le> k \<and> k < Suc i + length ws
                       then arr h2 ?b ! k + rate * cost_of h2 layer err k
                       else arr h2 ?b ! k) [0..<len h2 ?b]"
    by blast
  have rows: "arr h' (ws ! k) =
              map (\<lambda>j. arr h (ws ! k) ! j + rate * ?c (Suc i + k) * ?X ! j) [0..<n]"
    if "k < length ws" for k
    using rows0 [OF that] unch(4) [of "ws ! k"] that by (simp only: c2 unch(1) nth_mem)
  have "(\<Sum>k<length ws. ?c (Suc i + k) * arr h2 (ws ! k) ! j)
      = (\<Sum>k<length ws. ?c (Suc i + k) * arr h (ws ! k) ! j)" for j
    by (rule sum.cong) (simp_all add: unch(4))
  then have res: "arr h' residual =
              map (\<lambda>j. ?R1 ! j + (\<Sum>k<length ws. ?c (Suc i + k) * arr h (ws ! k) ! j)) [0..<n]"
    using res0 by (simp only: c2 ch)
  have bia: "arr h' ?b =
              map (\<lambda>k. if Suc i \<le> k \<and> k < Suc i + length ws then ?B1 ! k + rate * ?c k else ?B1 ! k)
                [0..<len h ?b]"
    using bia0 by (simp only: c2 ch len2)
  have g1: "\<forall>a. a \<notin> set (w # ws) \<longrightarrow> a \<noteq> residual \<longrightarrow> a \<noteq> ?b \<longrightarrow> arr h' a = arr h a"
    using frame by (simp add: arr2)
  have w': "arr h' w = ?W1" using frame [of w] d(2,3,4) by (simp add: ch)
  have g2: "\<forall>k<length (w # ws). arr h' ((w # ws) ! k) =
              map (\<lambda>j. arr h ((w # ws) ! k) ! j + rate * ?c (i + k) * ?X ! j) [0..<n]"
  proof (intro allI impI)
    fix k assume "k < length (w # ws)"
    then show "arr h' ((w # ws) ! k) =
              map (\<lambda>j. arr h ((w # ws) ! k) ! j + rate * ?c (i + k) * ?X ! j) [0..<n]"
      using w' rows by (cases k) simp_all
  qed
  have g3: "arr h' residual =
              map (\<lambda>j. ?R ! j + (\<Sum>k<length (w # ws). ?c (i + k) * arr h ((w # ws) ! k) ! j)) [0..<n]"
    unfolding res
    by (rule map_cong) (simp_all del: sum.lessThan_Suc add: sum.lessThan_Suc_shift add.assoc)
  have g4: "arr h' ?b =
              map (\<lambda>k. if i \<le> k \<and> k < i + length (w # ws) then ?B ! k + rate * ?c k else ?B ! k)
                [0..<len h ?b]"
    unfolding bia
  proof (rule map_cong [OF refl])
    fix k assume "k \<in> set [0..<len h ?b]"
    then have k: "k < length ?B" by (simp add: len_def)
    show "(if Suc i \<le> k \<and> k < Suc i + length ws then ?B1 ! k + rate * ?c k else ?B1 ! k) =
          (if i \<le> k \<and> k < i + length (w # ws) then ?B ! k + rate * ?c k else ?B ! k)"
      using k by (cases "k = i") auto
  qed
  show ?case
    unfolding step using run len' length2 g1 g2 g3 g4 by simp
qed

lemma len_append: "len (h @ [xs]) a = (if a = length h then length xs else len h a)"
  by (simp add: len_def arr_append)

lemma backpropagate_post:
  assumes wf: "wf_layer h n layer" and ne: "Weight layer \<noteq> []"
    and inp: "n \<le> len h input" "input < length h" "input \<notin> set (Bias layer # Weight layer)"
    and err: "length (Weight layer) \<le> len h err" "err < length h" "err \<notin> set (Bias layer # Weight layer)"
  shows "\<exists>h'. backpropagate layer input err rate lambda h = Inr (length h, h') \<and>
           length h' = Suc (length h) \<and>
           (\<forall>a. a \<notin> set (Weight layer) \<longrightarrow> a \<noteq> length h \<longrightarrow> a \<noteq> Bias layer \<longrightarrow> arr h' a = arr h a) \<and>
           (\<forall>i<length (Weight layer). arr h' (Weight layer ! i) =
              map (\<lambda>j. arr h (Weight layer ! i) ! j + rate * cost_of h layer err i * arr h input ! j) [0..<n]) \<and>
           arr h' (length h) =
              map (\<lambda>j. \<Sum>i<length (Weight layer). cost_of h layer err i * arr h (Weight layer ! i) ! j) [0..<n] \<and>
           arr h' (Bias layer) =
              map (\<lambda>i. arr h (Bias layer) ! i + rate * cost_of h layer err i) [0..<length (Weight layer)]"
proof -
  let ?ws = "Weight layer" and ?b = "Bias layer" and ?v = "value' layer" and ?r = "length h"
  define h1 where "h1 = h @ [replicate n (0::real)]"
  note d = wf_layerD [OF wf]
  have w0: "row ?ws 0 = Inr (?ws ! 0)" "len h (?ws ! 0) = n"
    using ne d(8) by (simp_all add: row_def)
  have start: "backpropagate layer input err rate lambda h =
     (case backpropagate_rows layer ?r input err rate ?ws 0 h1 of
        Inl e \<Rightarrow> Inl e | Inr h2 \<Rightarrow> Inr (?r, h2))"
    by (simp add: backpropagate_def w0 make_slice_def h1_def)
  have old: "\<And>a. a \<noteq> ?r \<Longrightarrow> arr h1 a = arr h a" "\<And>a. a \<noteq> ?r \<Longrightarrow> len h1 a = len h a"
    and new: "arr h1 ?r = replicate n 0" "len h1 ?r = n" "length h1 = Suc ?r"
    by (simp_all add: h1_def arr_append len_append)
  have fresh: "?r \<notin> set ?ws" "?r \<noteq> ?b" "?r \<noteq> ?v" "?r \<noteq> input" "?r \<noteq> err"
    using d(1-3) inp(2) err(2) by auto
  have c1: "cost_of h1 layer err = cost_of h layer err"
    using fresh by (intro cost_of_cong old) auto
  have rowsold: "\<And>k. k < length ?ws \<Longrightarrow> arr h1 (?ws ! k) = arr h (?ws ! k)"
    using fresh(1) by (intro old) (metis nth_mem)
  have rowsv: "\<forall>w\<in>set ?ws. w < length h1" "\<forall>w\<in>set ?ws. len h1 w = n"
  proof -
    have "\<And>w. w \<in> set ?ws \<Longrightarrow> w \<noteq> ?r" using fresh(1) by auto
    then show "\<forall>w\<in>set ?ws. w < length h1" "\<forall>w\<in>set ?ws. len h1 w = n"
      using d(3,8) by (simp_all add: old new less_Suc_eq)
  qed
  have "\<exists>h'. backpropagate_rows layer ?r input err rate ?ws 0 h1 = Inr h' \<and>
           length h' = length h1 \<and>
           (\<forall>a. a \<notin> set ?ws \<longrightarrow> a \<noteq> ?r \<longrightarrow> a \<noteq> ?b \<longrightarrow> arr h' a = arr h1 a) \<and>
           (\<forall>k<length ?ws. arr h' (?ws ! k) =
              map (\<lambda>j. arr h1 (?ws ! k) ! j + rate * cost_of h1 layer err (0 + k) * arr h1 input ! j) [0..<n]) \<and>
           arr h' ?r =
              map (\<lambda>j. arr h1 ?r ! j + (\<Sum>k<length ?ws. cost_of h1 layer err (0 + k) * arr h1 (?ws ! k) ! j))
                [0..<n] \<and>
           arr h' ?b =
              map (\<lambda>k. if 0 \<le> k \<and> k < 0 + length ?ws
                       then arr h1 ?b ! k + rate * cost_of h1 layer err k
                       else arr h1 ?b ! k) [0..<len h1 ?b]"
    using d(2,4-7,9,10) fresh inp err rowsv
    by (intro backpropagate_rows_post) (auto simp: old new)
  then obtain h' where run: "backpropagate_rows layer ?r input err rate ?ws 0 h1 = Inr h'"
    and len': "length h' = length h1"
    and frame: "\<And>a. a \<notin> set ?ws \<Longrightarrow> a \<noteq> ?r \<Longrightarrow> a \<noteq> ?b \<Longrightarrow> arr h' a = arr h1 a"
    and rows0: "\<And>k. k < length ?ws \<Longrightarrow> arr h' (?ws ! k) =
              map (\<lambda>j. arr h1 (?ws ! k) ! j + rate * cost_of h1 layer err (0 + k) * arr h1 input ! j) [0..<n]"
    and res0: "arr h' ?r =
              map (\<lambda>j. arr h1 ?r ! j + (\<Sum>k<length ?ws. cost_of h1 layer err (0 + k) * arr h1 (?ws ! k) ! j))
                [0..<n]"
    and bia0: "arr h' ?b =
              map (\<lambda>k. if 0 \<le> k \<and> k < 0 + length ?ws
                       then arr h1 ?b ! k + rate * cost_of h1 layer err k
                       else arr h1 ?b ! k) [0..<len h1 ?b]"
    by blast
  have g1: "\<forall>a. a \<notin> set ?ws \<longrightarrow> a \<noteq> ?r \<longrightarrow> a \<noteq> ?b \<longrightarrow> arr h' a = arr h a"
    using frame old(1) by simp
  have g2: "\<forall>i<length ?ws. arr h' (?ws ! i) =
              map (\<lambda>j. arr h (?ws ! i) ! j + rate * cost_of h layer err i * arr h input ! j) [0..<n]"
    using rows0 rowsold old(1) [OF fresh(4) [symmetric]] by (simp add: c1)
  have "(\<Sum>k<length ?ws. cost_of h layer err k * arr h1 (?ws ! k) ! j)
      = (\<Sum>k<length ?ws. cost_of h layer err k * arr h (?ws ! k) ! j)" for j
    by (rule sum.cong) (simp_all add: rowsold)
  then have g3: "arr h' ?r =
              map (\<lambda>j. \<Sum>i<length ?ws. cost_of h layer err i * arr h (?ws ! i) ! j) [0..<n]"
    unfolding res0 by (simp add: c1 new)
  have g4: "arr h' ?b = map (\<lambda>i. arr h ?b ! i + rate * cost_of h layer err i) [0..<length ?ws]"
    unfolding bia0 using d(9) fresh(2) by (simp add: c1 old)
  show ?thesis
    unfolding start using run len' new(3) g1 g2 g3 g4 by simp
qed

section \<open>The steps of Train\<close>









lemma wf_layer_mono:
  assumes "wf_layer h n layer" "length h \<le> length h'"
    and "\<And>a. a \<in> set (layer_addrs layer) \<Longrightarrow> len h' a = len h a"
  shows "wf_layer h' n layer"
proof -
  have "\<And>a. a \<in> set (layer_addrs layer) \<Longrightarrow> a < length h'"
    using assms(1,2) by (auto simp: wf_layer_def list_all_iff)
  then show ?thesis
    using assms(1,3) by (simp add: wf_layer_def list_all_iff layer_addrs_def)
qed






lemma spec_feedforward_range:
  assumes "i < length W"
  shows "0 < spec_feedforward W b x ! i" "spec_feedforward W b x ! i < 1"
proof -
  let ?s = "b ! i + (\<Sum>j<length x. W ! i ! j * x ! j)"
  have e: "0 < exp (- ?s)" by simp
  have v: "spec_feedforward W b x ! i = 1 / (1 + exp (- ?s))"
    using assms by (simp add: spec_feedforward_def)
  show "0 < spec_feedforward W b x ! i" unfolding v using e by (simp add: add_pos_pos)
  show "spec_feedforward W b x ! i < 1" unfolding v using e by (simp add: add_pos_pos)
qed

lemma Activate_post:
  assumes wf: "wf_net h n net" and inp: "len h input = n" "input \<noteq> value' (Hidden net)"
  shows "\<exists>h'. Activate net input h = Inr (length h, h') \<and>
           length h' = Suc (length h) \<and>
           wf_net h' n net \<and>
           (\<forall>a. a \<noteq> value' (Hidden net) \<longrightarrow> a \<noteq> value' (Output net) \<longrightarrow> a \<noteq> length h \<longrightarrow>
                arr h' a = arr h a) \<and>
           arr h' (length h) = arr h' (value' (Output net)) \<and>
           (\<forall>i<length (Weight (Output net)).
              0 < arr h' (value' (Output net)) ! i \<and> arr h' (value' (Output net)) ! i < 1)"
proof -
  let ?H = "Hidden net" and ?O = "Output net"
  let ?vH = "value' (Hidden net)" and ?vO = "value' (Output net)"
  define a1 where "a1 = spec_feedforward (weights h ?H) (bias h ?H) (arr h input)"
  define a2 where "a2 = spec_feedforward (weights h ?O) (bias h ?O) a1"
  define h' where "h' = h[?vH := a1, ?vO := a2] @ [a2]"
  have wfH: "wf_layer h n ?H" and wfO: "wf_layer h (length (Weight ?H)) ?O"
    and dis: "distinct (layer_addrs ?H @ layer_addrs ?O)"
    using wf by (simp_all add: wf_net_def)
  note dH = wf_layerD [OF wfH] and dO = wf_layerD [OF wfO]
  have neq: "?vH \<noteq> ?vO" using dis by (auto simp: layer_addrs_def)
  have run: "Activate net input h = Inr (length h, h')"
    unfolding h'_def a2_def a1_def using wf inp by (intro Activate_heap) auto
  have l: "length h' = Suc (length h)" by (simp add: h'_def)
  have la: "length a1 = length (Weight ?H)" "length a2 = length (Weight ?O)"
    by (simp_all add: a1_def a2_def spec_feedforward_def weights_def)
  have a: "\<And>a. arr h' a = (if a = length h then a2 else if a = ?vO then a2
                               else if a = ?vH then a1 else arr h a)"
    using dH(1) dO(1) by (simp add: h'_def arr_append)
  have lens: "\<And>a. a < length h \<Longrightarrow> len h' a = len h a"
    using dH(10) dO(10) la by (simp add: len_def a)
  have valid: "\<And>a. a \<in> set (layer_addrs ?H) \<union> set (layer_addrs ?O) \<Longrightarrow> a < length h"
    using wfH wfO by (auto simp: wf_layer_def list_all_iff)
  have "wf_layer h' n ?H" "wf_layer h' (length (Weight ?H)) ?O"
    using valid by (auto intro!: wf_layer_mono [OF wfH] wf_layer_mono [OF wfO] lens simp: l)
  then have g1: "wf_net h' n net" using dis by (simp add: wf_net_def)
  have g2: "\<forall>a. a \<noteq> ?vH \<longrightarrow> a \<noteq> ?vO \<longrightarrow> a \<noteq> length h \<longrightarrow> arr h' a = arr h a"
    by (simp add: a)
  have g3: "arr h' (length h) = arr h' ?vO" by (simp add: a)
  have g4: "\<forall>i<length (Weight ?O). 0 < arr h' ?vO ! i \<and> arr h' ?vO ! i < 1"
    using dO(1) by (simp add: a a2_def spec_feedforward_range weights_def)
  show ?thesis using run l g1 g2 g3 g4 by blast
qed

section \<open>Activating twice\<close>

text \<open>
  A second \<^verbatim>\<open>Activate\<close> on the same input, with the weights untouched in between,
  returns the same numbers in another new array, and leaves the array that the first
  call returned as it was.
\<close>

lemma Activate_twice:
  assumes wf: "wf_net h n net" and inp: "len h input = n" "input < length h"
    "input \<noteq> value' (Hidden net)" "input \<noteq> value' (Output net)"
  shows "\<exists>h1 h2. Activate net input h = Inr (length h, h1) \<and>
           Activate net input h1 = Inr (Suc (length h), h2) \<and>
           arr h2 (Suc (length h)) = arr h1 (length h) \<and>
           arr h2 (length h) = arr h1 (length h)"
proof -
  let ?H = "Hidden net" and ?O = "Output net"
  let ?vH = "value' (Hidden net)" and ?vO = "value' (Output net)"
  define a1 where "a1 = spec_feedforward (weights h ?H) (bias h ?H) (arr h input)"
  define a2 where "a2 = spec_feedforward (weights h ?O) (bias h ?O) a1"
  define h1 where "h1 = h[?vH := a1, ?vO := a2] @ [a2]"
  have wfH: "wf_layer h n ?H" and wfO: "wf_layer h (length (Weight ?H)) ?O"
    and dis: "distinct (layer_addrs ?H @ layer_addrs ?O)"
    using wf by (simp_all add: wf_net_def)
  note dH = wf_layerD [OF wfH] and dO = wf_layerD [OF wfO]
  have sep: "?vH \<notin> set (Weight ?O)" "?vO \<notin> set (Weight ?H)" "?vH \<noteq> Bias ?O" "?vO \<noteq> Bias ?H"
    using dis by (auto simp: layer_addrs_def)
  have run1: "Activate net input h = Inr (length h, h1)"
    unfolding h1_def a2_def a1_def using wf inp by (intro Activate_heap) auto
  obtain h' where "Activate net input h = Inr (length h, h')" "wf_net h' n net"
    using Activate_post [OF wf inp(1,3)] by blast
  then have wf1: "wf_net h1 n net" using run1 by simp
  have l1: "length h1 = Suc (length h)" by (simp add: h1_def)
  have a: "\<And>a. arr h1 a = (if a = length h then a2 else if a = ?vO then a2
                               else if a = ?vH then a1 else arr h a)"
    using dH(1) dO(1) by (simp add: h1_def arr_append)
  have same: "weights h1 ?H = weights h ?H" "weights h1 ?O = weights h ?O"
    "bias h1 ?H = bias h ?H" "bias h1 ?O = bias h ?O" "arr h1 input = arr h input"
    using dH(2,3,4,5) dO(2,3,4,5) sep inp(2-4)
    by (auto simp: weights_def bias_def a)
  have li: "len h1 input \<le> n" using inp(1) by (simp add: len_def same)
  have "Activate net input h1 =
         Inr (length h1, h1[?vH := spec_feedforward (weights h1 ?H) (bias h1 ?H) (arr h1 input),
                            ?vO := spec_feedforward (weights h1 ?O) (bias h1 ?O)
                                     (spec_feedforward (weights h1 ?H) (bias h1 ?H) (arr h1 input))]
                         @ [spec_feedforward (weights h1 ?O) (bias h1 ?O)
                              (spec_feedforward (weights h1 ?H) (bias h1 ?H) (arr h1 input))])"
    using wf1 li inp(3) by (intro Activate_heap)
  then have run2: "Activate net input h1 = Inr (Suc (length h), h1[?vH := a1, ?vO := a2] @ [a2])"
    by (simp add: same l1 a1_def a2_def)
  have r2: "arr (h1[?vH := a1, ?vO := a2] @ [a2]) (Suc (length h)) = a2"
    by (simp add: arr_append l1)
  have r1: "arr (h1[?vH := a1, ?vO := a2] @ [a2]) (length h) = a2"
    using dH(1) dO(1) by (simp add: arr_append l1 a)
  show ?thesis using run1 run2 r1 r2 by (simp add: a)
qed

section \<open>The claims about the forward pass\<close>

text \<open>
  \<^bold>\<open>C6.\<close> For every well-formed network and every input of the hidden layer's
  width, \<^verbatim>\<open>Activate\<close> returns normally; the vector it returns is the output layer's
  dense transform of the hidden layer's dense transform of the input, every node being
  the sigmoid of its bias plus the weighted sum of its inputs; and the returned slice
  is a new array, at an address that did not exist before the call, so it is none
  of the network's buffers. It holds the same numbers as the output layer's activation
  buffer, and the weights are as they were.
\<close>

theorem Activate_composition:
  assumes "wf_net h n net" and "len h input = n" and "input \<noteq> value' (Hidden net)"
  shows "\<exists>h'. Activate net input h = Inr (length h, h') \<and>
           arr h' (length h) =
             spec_feedforward (weights h (Output net)) (bias h (Output net))
               (spec_feedforward (weights h (Hidden net)) (bias h (Hidden net)) (arr h input)) \<and>
           length h \<notin> set (layer_addrs (Hidden net)) \<union> set (layer_addrs (Output net)) \<and>
           activation h' (Output net) = arr h' (length h) \<and>
           weights h' (Hidden net) = weights h (Hidden net) \<and>
           weights h' (Output net) = weights h (Output net)"
proof -
  let ?H = "Hidden net" and ?O = "Output net"
  define a1 where "a1 = spec_feedforward (weights h ?H) (bias h ?H) (arr h input)"
  define a2 where "a2 = spec_feedforward (weights h ?O) (bias h ?O) a1"
  define h2 where "h2 = h[value' ?H := a1, value' ?O := a2]"
  have wfH: "wf_layer h n ?H" and wfO: "wf_layer h (length (Weight ?H)) ?O"
    and dis: "distinct (layer_addrs ?H @ layer_addrs ?O)"
    using assms(1) by (simp_all add: wf_net_def)
  note dH = wf_layerD [OF wfH] and dO = wf_layerD [OF wfO]
  have vH: "value' ?H \<notin> set (Weight ?O)" "value' ?H \<notin> set (Weight ?H)"
    and vO: "value' ?O \<notin> set (Weight ?H)" "value' ?O \<notin> set (Weight ?O)"
    using dis by (auto simp: layer_addrs_def)
  have run: "Activate net input h = Inr (length h, h2 @ [a2])"
    unfolding h2_def a2_def a1_def using assms by (intro Activate_heap) auto
  have len2: "length h2 = length h" by (simp add: h2_def)
  have res: "arr (h2 @ [a2]) (length h) = a2" using len2 by (simp add: arr_append)
  have fresh: "length h \<notin> set (layer_addrs ?H) \<union> set (layer_addrs ?O)"
    using wfH wfO by (auto simp: wf_layer_def list_all_iff)
  have act: "activation (h2 @ [a2]) ?O = a2"
    using dO(1) by (simp add: activation_def arr_append len2) (simp add: h2_def)
  have wH: "weights (h2 @ [a2]) ?H = weights h ?H"
    using dH(3) vH vO by (simp add: weights_append len2) (simp add: h2_def weights_update)
  have wO: "weights (h2 @ [a2]) ?O = weights h ?O"
    using dO(3) vH vO by (simp add: weights_append len2) (simp add: h2_def weights_update)
  let ?h' = "h2 @ [a2]"
  have "Activate net input h = Inr (length h, ?h') \<and>
        arr ?h' (length h) =
             spec_feedforward (weights h (Output net)) (bias h (Output net))
               (spec_feedforward (weights h (Hidden net)) (bias h (Hidden net)) (arr h input)) \<and>
        length h \<notin> set (layer_addrs (Hidden net)) \<union> set (layer_addrs (Output net)) \<and>
        activation ?h' (Output net) = arr ?h' (length h) \<and>
        weights ?h' (Hidden net) = weights h (Hidden net) \<and>
        weights ?h' (Output net) = weights h (Output net)"
    using run res fresh act wH wO by (simp add: a2_def a1_def)
  then show ?thesis by (rule exI)
qed

theorem Activate_composition_witness:
  "wf_net example_heap 1 example_net \<and> len example_heap 6 = 1 \<and> 6 \<noteq> value' (Hidden example_net) \<and>
   (\<exists>h'. Activate example_net 6 example_heap = Inr (9, h') \<and> arr h' 9 = [1 / 2])"
proof -
  have a: "wf_net example_heap 1 example_net" "len example_heap 6 = 1" "6 \<noteq> value' (Hidden example_net)"
    by (simp_all add: wf_net_def wf_layer_def layer_addrs_def example_heap_def example_net_def len_def arr_def)
  have l: "length example_heap = 9" by (simp add: example_heap_def)
  have "spec_feedforward (weights example_heap (Hidden example_net)) (bias example_heap (Hidden example_net))
          (arr example_heap 6) = [1 / 2]"
    by (simp add: spec_feedforward_def weights_def bias_def arr_def example_heap_def example_net_def)
  moreover have "spec_feedforward (weights example_heap (Output example_net)) (bias example_heap (Output example_net))
          [1 / 2] = [1 / 2]"
    by (simp add: spec_feedforward_def weights_def bias_def arr_def example_heap_def example_net_def)
  ultimately show ?thesis
    using a Activate_composition [OF a] unfolding l by auto
qed

text \<open>
  \<^bold>\<open>C4\<close> (as the code has it). \<^verbatim>\<open>feedforward\<close> has no shape check of its own.
  An input shorter than the layer's width makes no error: the call returns normally and
  every node sums over the first \<open>len(input)\<close> weights of its row only. An input
  longer than the width, on a layer with at least one node, ends in the run-time panic
  of an index out of range.
\<close>

theorem feedforward_width_mismatch:
  assumes "wf_layer h n layer" and "value' layer \<noteq> input"
  shows "(len h input < n \<longrightarrow>
            feedforward layer input h =
              Inr (value' layer,
                   h[value' layer := spec_feedforward (weights h layer) (bias h layer) (arr h input)])) \<and>
         (n < len h input \<and> Weight layer \<noteq> [] \<longrightarrow>
            feedforward layer input h = Inl IndexOutOfRange)"
  using assms by (simp add: feedforward_spec feedforward_too_long)

theorem feedforward_width_mismatch_witness:
  "wf_layer wide_heap 2 wide_layer \<and> value' wide_layer \<noteq> 3 \<and> len wide_heap 3 < 2 \<and>
   feedforward wide_layer 3 wide_heap = Inr (2, [[1, 1], [-1], [1 / 2], [1], [1, 1, 1]]) \<and>
   value' wide_layer \<noteq> 4 \<and> 2 < len wide_heap 4 \<and> Weight wide_layer \<noteq> [] \<and>
   feedforward wide_layer 4 wide_heap = Inl IndexOutOfRange"
proof -
  have wf: "wf_layer wide_heap 2 wide_layer"
    by (simp add: wf_layer_def layer_addrs_def wide_heap_def wide_layer_def len_def arr_def)
  have a: "value' wide_layer \<noteq> 3" "len wide_heap 3 < 2"
    and b: "value' wide_layer \<noteq> 4" "2 < len wide_heap 4 \<and> Weight wide_layer \<noteq> []"
    by (simp_all add: wide_heap_def wide_layer_def len_def arr_def)
  have "spec_feedforward (weights wide_heap wide_layer) (bias wide_heap wide_layer) (arr wide_heap 3) = [1 / 2]"
    by (simp add: spec_feedforward_def weights_def bias_def arr_def wide_heap_def wide_layer_def)
  moreover have "wide_heap[value' wide_layer := [1 / 2]] = [[1, 1], [-1], [1 / 2], [1], [1, 1, 1]]"
    by (simp add: wide_heap_def wide_layer_def)
  ultimately show ?thesis
    using wf a b feedforward_width_mismatch [OF wf a(1)] feedforward_width_mismatch [OF wf b(1)]
    by (simp add: wide_layer_def)
qed

text \<open>
  C4 as stated fails: on a node of width 2, an input of length 1 is accepted, and the
  node's second weight takes no part in the sum \<open>-1 + 1 * 1\<close>.
\<close>

theorem feedforward_short_input_counterexample:
  "wf_layer wide_heap 2 wide_layer \<and> len wide_heap 3 \<noteq> 2 \<and>
   feedforward wide_layer 3 wide_heap = Inr (2, [[1, 1], [-1], [1 / 2], [1], [1, 1, 1]])"
  by (simp add: wf_layer_def layer_addrs_def wide_heap_def wide_layer_def len_def arr_def
      feedforward_def get_def put_def row_def sigmoid_def)

text \<open>
  \<^bold>\<open>C10.\<close> The forward pass of \<^verbatim>\<open>neural/neural.go\<close> and the forward pass of the
  later version are the same function: on every layer or network, every input and every
  heap, \<^verbatim>\<open>feedforward\<close> and \<^verbatim>\<open>Activate\<close> of the one return what those of the
  other return, be it a result and a heap or a panic.
\<close>

theorem forward_pass_versions_agree:
  "neural_feedforward layer input h = feedforward layer input h \<and>
   neural_Activate net input h = Activate net input h"
  by (simp add: neural_feedforward_eq neural_Activate_eq)

section \<open>The claims about the cost functions and about loading\<close>



text \<open>
  \<^bold>\<open>C5\<close> (as the code has it). \<^verbatim>\<open>LoadNetwork\<close> has no error to report and does not
  look at the decoder's: if the decoder left one of the two layer pointers nil, the call
  ends in the run-time panic of a nil dereference; otherwise it returns a network, each
  layer with a new zero-filled activation vector of the length of its weight matrix,
  also when that matrix is absent or empty.
\<close>

theorem LoadNetwork_outcome:
  "LoadNetwork dec h =
     (case Hidden_ptr dec of
        None \<Rightarrow> Inl NilDereference
      | Some hidden \<Rightarrow>
         (case Output_ptr dec of
            None \<Rightarrow> Inl NilDereference
          | Some output \<Rightarrow>
              Inr (\<lparr>Hidden = hidden\<lparr>value' := length h\<rparr>,
                    Output = output\<lparr>value' := Suc (length h)\<rparr>\<rparr>,
                   h @ [replicate (length (Weight hidden)) 0, replicate (length (Weight output)) 0])))"
  by (simp add: LoadNetwork_def initialize_def make_slice_def split: option.splits)

text \<open>
  C5 as stated fails: the record \<^verbatim>\<open>{"Hidden":{},"Output":{}}\<close> decodes without error
  into two layers with nil slices (address 0 holds the empty array), and
  \<^verbatim>\<open>LoadNetwork\<close> returns a network of two empty layers.
\<close>

theorem LoadNetwork_incomplete_counterexample:
  "LoadNetwork \<lparr>decode_error = False,
                Hidden_ptr = Some \<lparr>Weight = [], Bias = 0, value' = 0\<rparr>,
                Output_ptr = Some \<lparr>Weight = [], Bias = 0, value' = 0\<rparr>\<rparr> [[]] =
   Inr (\<lparr>Hidden = \<lparr>Weight = [], Bias = 0, value' = 1\<rparr>,
         Output = \<lparr>Weight = [], Bias = 0, value' = 2\<rparr>\<rparr>, [[], [], []])"
  by (simp add: LoadNetwork_def initialize_def make_slice_def)

section \<open>The claims about training\<close>

text \<open>
  \<^bold>\<open>C3.\<close> For every well-formed layer with at least one node, an input of the
  layer's width and an error vector with one entry per node, neither of them one of the
  layer's weight or bias arrays, \<^verbatim>\<open>backpropagate\<close> returns normally. With
  \<open>cost\<^sub>i = err\<^sub>i * activation\<^sub>i * (1 - activation\<^sub>i)\<close>, the residual it returns is a
  new vector of the layer's input count whose entry \<open>j\<close> is the sum over the nodes
  \<open>i\<close> of \<open>cost\<^sub>i\<close> times the weight \<open>[i][j]\<close> as it stood before the call; every
  weight \<open>[i][j]\<close> has grown by \<open>rate * cost\<^sub>i * input[j]\<close> and every bias \<open>[i]\<close> by
  \<open>rate * cost\<^sub>i\<close>.
\<close>

theorem backpropagate_spec:
  assumes "wf_layer h n layer" and "Weight layer \<noteq> []"
    and "len h input = n" and "input < length h" and "input \<notin> set (Bias layer # Weight layer)"
    and "len h err = length (Weight layer)" and "err < length h"
    and "err \<notin> set (Bias layer # Weight layer)"
  shows "\<exists>h'. backpropagate layer input err rate lambda h = Inr (length h, h') \<and>
           len h' (length h) = n \<and>
           (\<forall>j<n. arr h' (length h) ! j =
              (\<Sum>i<length (Weight layer). cost_of h layer err i * weights h layer ! i ! j)) \<and>
           (\<forall>i<length (Weight layer). length (weights h' layer ! i) = n \<and>
              (\<forall>j<n. weights h' layer ! i ! j =
                 weights h layer ! i ! j + rate * cost_of h layer err i * arr h input ! j)) \<and>
           length (bias h' layer) = length (Weight layer) \<and>
           (\<forall>i<length (Weight layer).
              bias h' layer ! i = bias h layer ! i + rate * cost_of h layer err i)"
proof -
  let ?m = "length (Weight layer)"
  obtain h' where run: "backpropagate layer input err rate lambda h = Inr (length h, h')"
    and rows: "\<And>i. i < ?m \<Longrightarrow> arr h' (Weight layer ! i) =
              map (\<lambda>j. arr h (Weight layer ! i) ! j + rate * cost_of h layer err i * arr h input ! j) [0..<n]"
    and res: "arr h' (length h) =
              map (\<lambda>j. \<Sum>i<?m. cost_of h layer err i * arr h (Weight layer ! i) ! j) [0..<n]"
    and bia: "arr h' (Bias layer) =
              map (\<lambda>i. arr h (Bias layer) ! i + rate * cost_of h layer err i) [0..<?m]"
    using backpropagate_post [of h n layer input err rate lambda] assms by auto
  have "len h' (length h) = n" by (simp add: len_def res)
  moreover have "\<forall>j<n. arr h' (length h) ! j =
              (\<Sum>i<?m. cost_of h layer err i * weights h layer ! i ! j)"
    by (simp add: res weights_def)
  moreover have "\<forall>i<?m. length (weights h' layer ! i) = n \<and>
              (\<forall>j<n. weights h' layer ! i ! j =
                 weights h layer ! i ! j + rate * cost_of h layer err i * arr h input ! j)"
    by (simp add: weights_def rows)
  moreover have "length (bias h' layer) = ?m \<and>
           (\<forall>i<?m. bias h' layer ! i = bias h layer ! i + rate * cost_of h layer err i)"
    by (simp add: bias_def bia)
  ultimately show ?thesis using run by blast
qed

theorem backpropagate_spec_witness:
  "wf_layer example_active 1 (Output example_net) \<and> Weight (Output example_net) \<noteq> [] \<and>
   len example_active 2 = 1 \<and> 2 < length example_active \<and>
   2 \<notin> set (Bias (Output example_net) # Weight (Output example_net)) \<and>
   len example_active 7 = length (Weight (Output example_net)) \<and> 7 < length example_active \<and>
   7 \<notin> set (Bias (Output example_net) # Weight (Output example_net)) \<and>
   (\<exists>h'. backpropagate (Output example_net) 2 7 1 0 example_active = Inr (10, h') \<and>
      arr h' 10 ! 0 = 1 / 2 \<and>
      weights h' (Output example_net) ! 0 ! 0 = 17 / 8 \<and>
      bias h' (Output example_net) ! 0 = - 3 / 4)"
proof -
  have a: "wf_layer example_active 1 (Output example_net)" "Weight (Output example_net) \<noteq> []"
    "len example_active 2 = 1" "2 < length example_active"
    "2 \<notin> set (Bias (Output example_net) # Weight (Output example_net))"
    "len example_active 7 = length (Weight (Output example_net))" "7 < length example_active"
    "7 \<notin> set (Bias (Output example_net) # Weight (Output example_net))"
    by (simp_all add: wf_layer_def layer_addrs_def example_active_def example_net_def len_def arr_def)
  have l: "length example_active = 10" "length (Weight (Output example_net)) = 1"
    by (simp_all add: example_active_def example_net_def)
  have c: "cost_of example_active (Output example_net) 7 0 = 1 / 4"
    by (simp add: cost_of_def example_active_def example_net_def arr_def)
  have v: "weights example_active (Output example_net) ! 0 ! 0 = 2"
    "bias example_active (Output example_net) ! 0 = - 1" "arr example_active 2 ! 0 = 1 / 2"
    by (simp_all add: weights_def bias_def example_active_def example_net_def arr_def)
  show ?thesis
    using a backpropagate_spec [OF a, of 1 0] unfolding l by (auto simp: c v)
qed




text \<open>
  \<^bold>\<open>C1\<close> (where the code departs from it). On the 1-1-1 network with hidden weight 1
  and output weight 2, \<^verbatim>\<open>Activate\<close> on the input \<open>[1]\<close> leaves the heap
  \<open>example_active\<close>. The \<^verbatim>\<open>Train\<close> call that follows, with target \<open>[1]\<close>, rate 1 and
  lambda 0, returns with both weights 0, where the five steps of the specification
  give the hidden weight 17/16 and the output weight 33/16.
\<close>

theorem Train_departs_from_spec_steps:
  "Activate example_net 6 example_heap = Inr (9, example_active) \<and>
   Train example_net 6 7 1 0 example_active =
     Inr [[0], [-1], [1 / 2], [0], [- 7 / 8], [1 / 2], [1], [1], [0], [1 / 2], [1 / 2], [0], [0]] \<and>
   spec_train_weights
     (weights example_active (Hidden example_net)) (activation example_active (Hidden example_net))
     (weights example_active (Output example_net)) (activation example_active (Output example_net))
     (arr example_active 6) (arr example_active 7) 1 0 = ([[17 / 16]], [[33 / 16]])"
proof -
  have "Activate example_net 6 example_heap = Inr (9, example_active)"
    by (simp add: Activate_def feedforward_def make_slice_def copy_slice_def get_def put_def row_def
        len_def arr_def sigmoid_def example_net_def example_active_def example_heap_def)
  moreover have "Train example_net 6 7 1 0 example_active =
     Inr [[0], [-1], [1 / 2], [0], [- 7 / 8], [1 / 2], [1], [1], [0], [1 / 2], [1 / 2], [0], [0]]"
    by (simp add: Train_def RegularizationGrads_def SubtractGradients_def backpropagate_def
        make_slice_def get_def put_def row_def len_def arr_def Let_def example_net_def
        example_active_def)
  moreover have "spec_train_weights
     (weights example_active (Hidden example_net)) (activation example_active (Hidden example_net))
     (weights example_active (Output example_net)) (activation example_active (Output example_net))
     (arr example_active 6) (arr example_active 7) 1 0 = ([[17 / 16]], [[33 / 16]])"
    by (simp add: spec_train_weights_def spec_backpropagate_def spec_residual_def spec_cost_def
        weights_def activation_def arr_def Let_def example_net_def example_active_def)
  ultimately show ?thesis by blast
qed




end
